theory Spec2Isabelle
  imports Main
begin

section \<open>Strings\<close>

text \<open>
  A Python \<open>str\<close> is a sequence of Unicode code points, so a string is a list of code
  points here. The literals of \<open>main.py\<close> are written out as code points, with the text
  they stand for beside them (Cyrillic text is transliterated).
\<close>

type_synonym pystr = "nat list"

text \<open>\<open>s.startswith(p)\<close>\<close>

fun startswith :: "'a list \<Rightarrow> 'a list \<Rightarrow> bool" where
  "startswith s [] = True"
| "startswith [] (p # ps) = False"
| "startswith (c # cs) (p # ps) = (c = p \<and> startswith cs ps)"

text \<open>\<open>sub in s\<close>: \<open>sub\<close> occurs in \<open>s\<close> at some position.\<close>

fun str_contains :: "'a list \<Rightarrow> 'a list \<Rightarrow> bool" where
  "str_contains sub [] = (sub = [])"
| "str_contains sub (c # cs) = (startswith (c # cs) sub \<or> str_contains sub cs)"

text \<open>
  \<open>s.partition(sep)\<close> at the leftmost occurrence of \<open>sep\<close>: the text before it and the
  text after it, or \<open>None\<close> when \<open>sep\<close> does not occur. \<open>str.split\<close> and \<open>str.count\<close>
  both scan from the left for the next occurrence and go on behind it, so occurrences
  are counted without overlap.
\<close>

fun str_partition :: "'a list \<Rightarrow> 'a list \<Rightarrow> ('a list \<times> 'a list) option" where
  "str_partition sep [] = (if sep = [] then Some ([], []) else None)"
| "str_partition sep (c # cs) =
     (if startswith (c # cs) sep then Some ([], drop (length sep) (c # cs))
      else (case str_partition sep cs of
              None \<Rightarrow> None
            | Some (head, tail) \<Rightarrow> Some (c # head, tail)))"

text \<open>
  \<open>s.split(sep)\<close>. Python raises \<open>ValueError\<close> for an empty separator; \<open>main.py\<close> splits at
  the two literals \<open>","\<close> and \<open>" - "\<close> only, so that case is closed off with \<open>[s]\<close> and
  never taken.
\<close>

function str_split :: "'a list \<Rightarrow> 'a list \<Rightarrow> 'a list list" where
  "str_split sep s =
     (if sep = [] then [s]
      else (case str_partition sep s of
              None \<Rightarrow> [s]
            | Some (head, tail) \<Rightarrow> head # str_split sep tail))"
  by pat_completeness auto
termination
proof (relation "measure (\<lambda>(sep, s). length s)")
  show "wf (measure (\<lambda>(sep :: 'a list, s :: 'a list). length s))"
    by simp
next
  fix sep s :: "'a list" and x :: "'a list \<times> 'a list" and head tail :: "'a list"
  assume ne: "sep \<noteq> []" and part: "str_partition sep s = Some x" and x: "(head, tail) = x"
  have "\<And>h t. str_partition sep s = Some (h, t) \<Longrightarrow> length t < length s"
  proof (induction s)
    case Nil
    with ne show ?case by simp
  next
    case (Cons c cs)
    then show ?case
      using ne by (cases sep) (auto split: if_splits option.splits)
  qed
  with part x show "((sep, tail), (sep, s)) \<in> measure (\<lambda>(sep, s). length s)"
    by auto
qed

text \<open>\<open>s.count(sub)\<close>: the number of occurrences of \<open>sub\<close> in \<open>s\<close>, without overlap.\<close>

function str_count :: "'a list \<Rightarrow> 'a list \<Rightarrow> nat" where
  "str_count sub s =
     (if sub = [] then length s + 1
      else (case str_partition sub s of
              None \<Rightarrow> 0
            | Some (head, tail) \<Rightarrow> 1 + str_count sub tail))"
  by pat_completeness auto
termination
proof (relation "measure (\<lambda>(sub, s). length s)")
  show "wf (measure (\<lambda>(sub :: 'a list, s :: 'a list). length s))"
    by simp
next
  fix sub s :: "'a list" and x :: "'a list \<times> 'a list" and head tail :: "'a list"
  assume ne: "sub \<noteq> []" and part: "str_partition sub s = Some x" and x: "(head, tail) = x"
  have "\<And>h t. str_partition sub s = Some (h, t) \<Longrightarrow> length t < length s"
  proof (induction s)
    case Nil
    with ne show ?case by simp
  next
    case (Cons c cs)
    then show ?case
      using ne by (cases sub) (auto split: if_splits option.splits)
  qed
  with part x show "((sub, tail), (sub, s)) \<in> measure (\<lambda>(sub, s). length s)"
    by auto
qed

text \<open>
  The code points Python's \<open>str.strip()\<close> removes: those for which \<open>str.isspace\<close> holds.
\<close>

definition isspace :: "nat \<Rightarrow> bool" where
  "isspace c =
     (c \<in> {9, 10, 11, 12, 13, 28, 29, 30, 31, 32, 133, 160, 5760,
           8232, 8233, 8239, 8287, 12288}
      \<or> (8192 \<le> c \<and> c \<le> 8202))"

text \<open>\<open>s.strip()\<close>\<close>

definition str_strip :: "pystr \<Rightarrow> pystr" where
  "str_strip s = rev (dropWhile isspace (rev (dropWhile isspace s)))"

text \<open>
  The lines of a text: the runs between line feeds (code point 10), the way the message
  is displayed. A line feed ends a line; text after the last line feed is a line too.
\<close>

fun text_lines :: "pystr \<Rightarrow> pystr list" where
  "text_lines [] = []"
| "text_lines (c # cs) =
     (if c = 10 then [] # text_lines cs
      else (case text_lines cs of
              [] \<Rightarrow> [[c]]
            | l # ls \<Rightarrow> (c # l) # ls))"

section \<open>JSON values and Python sets\<close>

text \<open>
  What \<open>json.load\<close> returns. A JSON object is the list of its members in file order;
  \<open>json.load\<close> builds a \<open>dict\<close> from it in which a later member with the same key replaces
  an earlier one. Numbers with a fraction or an exponent are Python floats and are left
  out of the model.
\<close>

datatype json =
    JNull
  | JBool bool
  | JInt int
  | JString pystr
  | JArray "json list"
  | JObject "(pystr \<times> json) list"

text \<open>
  The values a Python \<open>set\<close> built from JSON data can hold are \<open>None\<close>, booleans, integers
  and strings; lists and dicts are unhashable. Python compares set elements with \<open>==\<close>,
  under which \<open>True == 1\<close> and \<open>False == 0\<close>, so a boolean is the same element as its integer.
\<close>

datatype atom = ANone | AInt int | AStr pystr

fun atom_of :: "json \<Rightarrow> atom option" where
  "atom_of JNull = Some ANone"
| "atom_of (JBool b) = Some (AInt (if b then 1 else 0))"
| "atom_of (JInt i) = Some (AInt i)"
| "atom_of (JString s) = Some (AStr s)"
| "atom_of (JArray xs) = None"
| "atom_of (JObject kvs) = None"

fun json_of_atom :: "atom \<Rightarrow> json" where
  "json_of_atom ANone = JNull"
| "json_of_atom (AInt i) = JInt i"
| "json_of_atom (AStr s) = JString s"

datatype error =
    FileNotFoundError
  | JSONDecodeError
  | UnicodeDecodeError
  | RecursionError
  | ValueError
  | AttributeError
  | TypeError
  | Uncaught pystr

text \<open>
  A Python set is kept as the list of its elements, each once, in iteration order.
  Python leaves that order open; no statement below depends on the order chosen here.

  \<open>set(data)\<close>: the elements of a list (\<open>TypeError\<close> if one is unhashable), the keys of a
  dict, the characters of a string; \<open>TypeError\<close> for a value that is not iterable.
\<close>

fun py_set :: "json \<Rightarrow> error + atom list" where
  "py_set (JArray xs) =
     (case those (map atom_of xs) of
        None \<Rightarrow> Inl TypeError
      | Some elems \<Rightarrow> Inr (remdups elems))"
| "py_set (JObject kvs) = Inr (remdups (map (\<lambda>kv. AStr (fst kv)) kvs))"
| "py_set (JString s) = Inr (remdups (map (\<lambda>c. AStr [c]) s))"
| "py_set JNull = Inl TypeError"
| "py_set (JBool b) = Inl TypeError"
| "py_set (JInt i) = Inl TypeError"

text \<open>
  \<open>d.get(key)\<close> on the value \<open>json.load\<close> returned: \<open>None\<close> for a missing key, and
  \<open>AttributeError\<close> when the value is not a dict.
\<close>

fun dict_get :: "json \<Rightarrow> pystr \<Rightarrow> error + json" where
  "dict_get (JObject kvs) key =
     Inr (case map_of (rev kvs) key of None \<Rightarrow> JNull | Some v \<Rightarrow> v)"
| "dict_get JNull key = Inl AttributeError"
| "dict_get (JBool b) key = Inl AttributeError"
| "dict_get (JInt i) key = Inl AttributeError"
| "dict_get (JString s) key = Inl AttributeError"
| "dict_get (JArray xs) key = Inl AttributeError"

text \<open>The truth value of a value in \<open>if not x\<close>.\<close>

fun truthy :: "json \<Rightarrow> bool" where
  "truthy JNull = False"
| "truthy (JBool b) = b"
| "truthy (JInt i) = (i \<noteq> 0)"
| "truthy (JString s) = (s \<noteq> [])"
| "truthy (JArray xs) = (xs \<noteq> [])"
| "truthy (JObject kvs) = (kvs \<noteq> [])"

section \<open>The world the program runs in\<close>

text \<open>
  The two files \<open>schedule.json\<close> and \<open>subscribers.json\<close>. A file is absent; or it is
  there and \<open>json.load\<close> raises on it; or it is there and \<open>json.load\<close> returns a value.
  What \<open>json.load\<close> raises is kept with the file: \<open>JSONDecodeError\<close> for text that is
  not JSON, \<open>UnicodeDecodeError\<close> for bytes that are not text in the encoding the file is
  opened with, \<open>RecursionError\<close> for nesting too deep, \<open>ValueError\<close> for an integer
  literal with more digits than Python converts. \<open>json.dump\<close> of a value leaves contents
  that \<open>json.load\<close> returns as that value. \<open>file_writes\<close> counts how often a file has
  been opened for writing. \<open>now_baku\<close> is the day of the week of
  \<open>datetime.now(TIMEZONE)\<close>.
\<close>

datatype weekday = Monday | Tuesday | Wednesday | Thursday | Friday | Saturday | Sunday

datatype json_file = Absent | Unreadable error | Parsed json

record world =
  now_baku :: weekday
  schedule_json :: json_file
  subscribers_json :: json_file
  file_writes :: nat

text \<open>\<open>now_baku.strftime("%A")\<close>: the English name of the day.\<close>

fun strftime_A :: "weekday \<Rightarrow> pystr" where
  "strftime_A Monday = [77, 111, 110, 100, 97, 121]"
| "strftime_A Tuesday = [84, 117, 101, 115, 100, 97, 121]"
| "strftime_A Wednesday = [87, 101, 100, 110, 101, 115, 100, 97, 121]"
| "strftime_A Thursday = [84, 104, 117, 114, 115, 100, 97, 121]"
| "strftime_A Friday = [70, 114, 105, 100, 97, 121]"
| "strftime_A Saturday = [83, 97, 116, 117, 114, 100, 97, 121]"
| "strftime_A Sunday = [83, 117, 110, 100, 97, 121]"

text \<open>
  \<open>DAYS_MAPPING\<close>, from the English names to the Russian ones: Ponedel'nik, Vtornik,
  Sreda, Chetverg, Pyatnitsa, Subbota, Voskresen'e.
\<close>

definition DAYS_MAPPING :: "(pystr \<times> pystr) list" where
  "DAYS_MAPPING =
     [([77, 111, 110, 100, 97, 121],
         [1055, 1086, 1085, 1077, 1076, 1077, 1083, 1100, 1085, 1080, 1082]),
      ([84, 117, 101, 115, 100, 97, 121],
         [1042, 1090, 1086, 1088, 1085, 1080, 1082]),
      ([87, 101, 100, 110, 101, 115, 100, 97, 121],
         [1057, 1088, 1077, 1076, 1072]),
      ([84, 104, 117, 114, 115, 100, 97, 121],
         [1063, 1077, 1090, 1074, 1077, 1088, 1075]),
      ([70, 114, 105, 100, 97, 121],
         [1055, 1103, 1090, 1085, 1080, 1094, 1072]),
      ([83, 97, 116, 117, 114, 100, 97, 121],
         [1057, 1091, 1073, 1073, 1086, 1090, 1072]),
      ([83, 117, 110, 100, 97, 121],
         [1042, 1086, 1089, 1082, 1088, 1077, 1089, 1077, 1085, 1100, 1077])]"

section \<open>The stores\<close>

definition load_schedule :: "world \<Rightarrow> error + json" where
  "load_schedule w =
     (case schedule_json w of
        Absent \<Rightarrow> Inl FileNotFoundError
      | Unreadable e \<Rightarrow> Inl e
      | Parsed data \<Rightarrow> Inr data)"

definition load_subscribers :: "world \<Rightarrow> error + atom list" where
  "load_subscribers w =
     (case subscribers_json w of
        Absent \<Rightarrow> Inr []
      | Unreadable e \<Rightarrow> if e = JSONDecodeError then Inr [] else Inl e
      | Parsed data \<Rightarrow> py_set data)"

definition save_subscriber :: "int \<Rightarrow> world \<Rightarrow> error + world" where
  "save_subscriber chat_id w =
     (case load_subscribers w of
        Inl e \<Rightarrow> Inl e
      | Inr subscribers \<Rightarrow>
          if AInt chat_id \<notin> set subscribers
          then Inr (w\<lparr>subscribers_json :=
                        Parsed (JArray (map json_of_atom (subscribers @ [AInt chat_id]))),
                      file_writes := Suc (file_writes w)\<rparr>)
          else Inr w)"

section \<open>The message formatter\<close>

text \<open>The separators \<open>","\<close> and \<open>" - "\<close>, the joiner (space, em dash, space), the line feed.\<close>

definition comma :: pystr where
  "comma = [44]"

definition hyphen_sep :: pystr where
  "hyphen_sep = [32, 45, 32]"

definition em_dash_join :: pystr where
  "em_dash_join = [32, 8212, 32]"

definition newline :: pystr where
  "newline = [10]"

text \<open>\<open>f"Segodnya {day_name_ru}:"\<close>, the header line without its line feed.\<close>

definition header :: "pystr \<Rightarrow> pystr" where
  "header day_name_ru = [1057, 1077, 1075, 1086, 1076, 1085, 1103, 32] @ day_name_ru @ [58]"

text \<open>\<open>"Net zanyatij."\<close>\<close>

definition no_classes :: pystr where
  "no_classes = [1053, 1077, 1090, 32, 1079, 1072, 1085, 1103, 1090, 1080, 1081, 46]"

text \<open>\<open>f"Error: Could not map day {day_name_en} to Russian."\<close>\<close>

definition map_day_error :: "pystr \<Rightarrow> pystr" where
  "map_day_error day_name_en =
     [69, 114, 114, 111, 114, 58, 32, 67, 111, 117, 108, 100, 32, 110, 111, 116, 32,
      109, 97, 112, 32, 100, 97, 121, 32]
     @ day_name_en @ [32, 116, 111, 32, 82, 117, 115, 115, 105, 97, 110, 46]"

text \<open>
  The body of the loop over the entries: what is appended for one entry, before the line
  feed that each of the three branches appends after it.
\<close>

definition entry_line :: "pystr \<Rightarrow> pystr" where
  "entry_line entry =
     (if str_contains hyphen_sep entry
      then (case str_split hyphen_sep entry of
              [name, time] \<Rightarrow> time @ em_dash_join @ name
            | _ \<Rightarrow> entry)
      else entry)"

fun append_entries :: "pystr \<Rightarrow> pystr list \<Rightarrow> pystr" where
  "append_entries message [] = message"
| "append_entries message (entry # entries) =
     append_entries (message @ entry_line entry @ newline) entries"

definition get_schedule_message_for_today :: "world \<Rightarrow> error + pystr" where
  "get_schedule_message_for_today w =
     (let day_name_en = strftime_A (now_baku w) in
      case map_of DAYS_MAPPING day_name_en of
        None \<Rightarrow> Inr (map_day_error day_name_en)
      | Some day_name_ru \<Rightarrow>
          if day_name_ru = [] then Inr (map_day_error day_name_en)
          else
            (case load_schedule w of
               Inl e \<Rightarrow> Inl e
             | Inr schedule_data \<Rightarrow>
                 (case dict_get schedule_data day_name_ru of
                    Inl e \<Rightarrow> Inl e
                  | Inr schedule_text \<Rightarrow>
                      if \<not> truthy schedule_text
                      then Inr (header day_name_ru @ newline @ no_classes)
                      else
                        (case schedule_text of
                           JString text \<Rightarrow>
                             Inr (append_entries (header day_name_ru @ newline)
                                    (map str_strip (str_split comma text)))
                         | _ \<Rightarrow> Inl AttributeError))))"

section \<open>The command handlers\<close>

text \<open>
  Of an incoming update the handlers use the id of the chat and the result of
  \<open>user.mention_html()\<close>. A handler returns the world it leaves and the replies it sends,
  or the exception that leaves it.
\<close>

record update =
  effective_chat_id :: int
  mention_html :: pystr

datatype reply = Reply_html pystr | Reply_text pystr

text \<open>
  The greeting of \<open>start\<close>: \<open>"Privet, "\<close>, the mention of the user, and the rest of the
  sentence (that the schedule comes every day at 08:00 Baku time, and that \<open>/today\<close>
  shows today's).
\<close>

definition greeting :: "pystr \<Rightarrow> pystr" where
  "greeting mention =
     [1055, 1088, 1080, 1074, 1077, 1090, 44, 32] @ mention @
     [33, 32, 1071, 32, 1073, 1091, 1076, 1091, 32, 1086, 1090, 1087, 1088, 1072, 1074,
      1083, 1103, 1090, 1100, 32, 1090, 1077, 1073, 1077, 32, 1088, 1072, 1089, 1087,
      1080, 1089, 1072, 1085, 1080, 1077, 32, 1082, 1072, 1078, 1076, 1099, 1081, 32,
      1076, 1077, 1085, 1100, 32, 1074, 32, 48, 56, 58, 48, 48, 32, 1087, 1086, 32,
      1041, 1072, 1082, 1091, 46, 32, 1053, 1072, 1087, 1080, 1096, 1080, 32, 47, 116,
      111, 100, 97, 121, 32, 1095, 1090, 1086, 1073, 1099, 32, 1091, 1079, 1085, 1072,
      1090, 1100, 32, 1088, 1072, 1089, 1087, 1080, 1089, 1072, 1085, 1080, 1077, 32,
      1085, 1072, 32, 1089, 1077, 1075, 1086, 1076, 1085, 1103, 46]"

definition start :: "update \<Rightarrow> world \<Rightarrow> error + world \<times> reply list" where
  "start upd w =
     (case save_subscriber (effective_chat_id upd) w of
        Inl e \<Rightarrow> Inl e
      | Inr w' \<Rightarrow> Inr (w', [Reply_html (greeting (mention_html upd))]))"

definition today :: "update \<Rightarrow> world \<Rightarrow> error + world \<times> reply list" where
  "today upd w =
     (case get_schedule_message_for_today w of
        Inl e \<Rightarrow> Inl e
      | Inr message \<Rightarrow> Inr (w, [Reply_text message]))"

text \<open>
  The handlers \<open>__main__\<close> registers with the application, in this order:
  \<open>CommandHandler("start", start)\<close> and \<open>CommandHandler("today", today)\<close>, each the name
  of a command and the callback for it. Matching the text of a message against these
  names is done by the library and is not modelled.
\<close>

definition application_handlers ::
  "(pystr \<times> (update \<Rightarrow> world \<Rightarrow> error + world \<times> reply list)) list" where
  "application_handlers =
     [([115, 116, 97, 114, 116], start),
      ([116, 111, 100, 97, 121], today)]"

section \<open>The daily job\<close>

text \<open>
  \<open>bot.send_message\<close> is a parameter: from the state of the network, the recipient and
  the text it gives what the call does and the next state of the network. A call returns,
  or raises an instance of \<open>Exception\<close>, or raises something that is not one (a
  cancellation, an interrupt), which \<open>except Exception\<close> lets through.

  The job leaves behind the calls it made and the lines it logged with \<open>logger.error\<close>,
  each line kept as the recipient and the exception it names.
\<close>

datatype send_outcome = Delivered | Raises_Exception pystr | Raises_other pystr

datatype log_entry = Failed_to_send atom pystr

record 'n job_state =
  network :: 'n
  attempts :: "(atom \<times> pystr) list"
  logged :: "log_entry list"
  raised :: "error option"

fun send_loop ::
  "('n \<Rightarrow> atom \<Rightarrow> pystr \<Rightarrow> send_outcome \<times> 'n) \<Rightarrow> pystr \<Rightarrow> atom list
     \<Rightarrow> 'n job_state \<Rightarrow> 'n job_state" where
  "send_loop send_message message [] st = st"
| "send_loop send_message message (chat_id # rest) st =
     (case send_message (network st) chat_id message of
        (Delivered, n) \<Rightarrow>
          send_loop send_message message rest
            (st\<lparr>network := n, attempts := attempts st @ [(chat_id, message)]\<rparr>)
      | (Raises_Exception e, n) \<Rightarrow>
          send_loop send_message message rest
            (st\<lparr>network := n, attempts := attempts st @ [(chat_id, message)],
                logged := logged st @ [Failed_to_send chat_id e]\<rparr>)
      | (Raises_other e, n) \<Rightarrow>
          st\<lparr>network := n, attempts := attempts st @ [(chat_id, message)],
              raised := Some (Uncaught e)\<rparr>)"

definition send_schedule_job ::
  "('n \<Rightarrow> atom \<Rightarrow> pystr \<Rightarrow> send_outcome \<times> 'n) \<Rightarrow> 'n \<Rightarrow> world \<Rightarrow> 'n job_state" where
  "send_schedule_job send_message n w =
     (let st = \<lparr>network = n, attempts = [], logged = [], raised = None\<rparr> in
      case get_schedule_message_for_today w of
        Inl e \<Rightarrow> st\<lparr>raised := Some e\<rparr>
      | Inr message \<Rightarrow>
          (case load_subscribers w of
             Inl e \<Rightarrow> st\<lparr>raised := Some e\<rparr>
           | Inr subscribers \<Rightarrow> send_loop send_message message subscribers st))"

text \<open>
  What the calls of the loop do, one after the other, when none of them stops it: the
  outcomes \<open>send_message\<close> gives on the recipients in turn.
\<close>

fun send_outcomes ::
  "('n \<Rightarrow> atom \<Rightarrow> pystr \<Rightarrow> send_outcome \<times> 'n) \<Rightarrow> pystr \<Rightarrow> atom list \<Rightarrow> 'n
     \<Rightarrow> send_outcome list" where
  "send_outcomes send_message message [] n = []"
| "send_outcomes send_message message (chat_id # rest) n =
     (case send_message n chat_id message of
        (outcome, n') \<Rightarrow> outcome # send_outcomes send_message message rest n')"

text \<open>An outcome that \<open>except Exception\<close> does not catch leaves the loop and the job.\<close>

fun propagates :: "send_outcome \<Rightarrow> bool" where
  "propagates Delivered = False"
| "propagates (Raises_Exception e) = False"
| "propagates (Raises_other e) = True"

text \<open>
  The log lines owed to a run of calls: one for each call that raised an \<open>Exception\<close>, in
  the order of the calls, naming the recipient and the exception.
\<close>

fun failure_log :: "(atom \<times> send_outcome) list \<Rightarrow> log_entry list" where
  "failure_log [] = []"
| "failure_log ((chat_id, Raises_Exception e) # rest) =
     Failed_to_send chat_id e # failure_log rest"
| "failure_log ((chat_id, Delivered) # rest) = failure_log rest"
| "failure_log ((chat_id, Raises_other e) # rest) = failure_log rest"

section \<open>Example inputs\<close>

text \<open>
  A Monday with a given value in \<open>schedule.json\<close>, a given state of
  \<open>subscribers.json\<close> and no write yet; the Russian name of Monday; an update from the
  chat 42; and a \<open>send_message\<close> that raises an \<open>Exception\<close> with the text "boom" for
  the recipient 2, delivers to every other recipient, and counts its calls.
\<close>

abbreviation monday_ru :: pystr where
  "monday_ru \<equiv> [1055, 1086, 1085, 1077, 1076, 1077, 1083, 1100, 1085, 1080, 1082]"

abbreviation example_world :: "json \<Rightarrow> json_file \<Rightarrow> world" where
  "example_world schedule subscribers \<equiv>
     \<lparr>now_baku = Monday, schedule_json = Parsed schedule, subscribers_json = subscribers,
      file_writes = 0\<rparr>"

abbreviation example_update :: update where
  "example_update \<equiv> \<lparr>effective_chat_id = 42, mention_html = [65]\<rparr>"

abbreviation example_send :: "nat \<Rightarrow> atom \<Rightarrow> pystr \<Rightarrow> send_outcome \<times> nat" where
  "example_send \<equiv>
     (\<lambda>n chat_id text.
        (if chat_id = AInt 2 then Raises_Exception [98, 111, 111, 109] else Delivered, Suc n))"

section \<open>Properties of the string functions\<close>

lemma startswith_iff: "startswith s p \<longleftrightarrow> (\<exists>r. s = p @ r)"
  by (induction s p rule: startswith.induct) auto

lemma startswith_drop: "startswith s p \<Longrightarrow> s = p @ drop (length p) s"
  by (auto simp: startswith_iff)

text \<open>A partition cuts the string at an occurrence of the separator.\<close>

lemma str_partition_sound:
  "str_partition sep s = Some (h, t) \<Longrightarrow> s = h @ sep @ t"
proof (induction s arbitrary: h)
  case Nil
  then show ?case by (simp split: if_splits)
next
  case (Cons c cs)
  show ?case
  proof (cases "startswith (c # cs) sep")
    case True
    with Cons.prems startswith_drop [OF True] show ?thesis by simp
  next
    case False
    with Cons.prems obtain h' where "str_partition sep cs = Some (h', t)" and "h = c # h'"
      by (auto split: option.splits)
    with Cons.IH [of h'] show ?thesis by simp
  qed
qed

lemma str_contains_partition:
  "str_contains sub s \<longleftrightarrow> str_partition sub s \<noteq> None"
  by (induction s) (auto split: option.splits)

text \<open>\<open>sub in s\<close> says that \<open>s\<close> is some text, then \<open>sub\<close>, then some text.\<close>

lemma str_contains_iff: "str_contains sub s \<longleftrightarrow> (\<exists>a b. s = a @ sub @ b)"
proof (induction s)
  case Nil
  show ?case by auto
next
  case (Cons c cs)
  show ?case
  proof
    assume "str_contains sub (c # cs)"
    then consider "startswith (c # cs) sub" | "str_contains sub cs" by auto
    then show "\<exists>a b. c # cs = a @ sub @ b"
    proof cases
      case 1
      then obtain r where "c # cs = sub @ r" by (auto simp: startswith_iff)
      then have "c # cs = [] @ sub @ r" by simp
      then show ?thesis by blast
    next
      case 2
      with Cons.IH obtain a b where "cs = a @ sub @ b" by blast
      then have "c # cs = (c # a) @ sub @ b" by simp
      then show ?thesis by blast
    qed
  next
    assume "\<exists>a b. c # cs = a @ sub @ b"
    then obtain a b where ab: "c # cs = a @ sub @ b" by blast
    show "str_contains sub (c # cs)"
    proof (cases a)
      case Nil
      with ab have "startswith (c # cs) sub" by (auto simp: startswith_iff)
      then show ?thesis by simp
    next
      case (Cons x a')
      with ab have "cs = a' @ sub @ b" by simp
      with Cons.IH have "str_contains sub cs" by blast
      then show ?thesis by simp
    qed
  qed
qed

text \<open>No occurrence is counted exactly when the text does not occur.\<close>

lemma str_count_zero_iff:
  "sub \<noteq> [] \<Longrightarrow> str_count sub s = 0 \<longleftrightarrow> \<not> str_contains sub s"
  by (auto simp: str_contains_partition str_count.simps [of sub s] split: option.splits)

text \<open>A split gives one part more than the separator has occurrences.\<close>

lemma length_str_split:
  "sep \<noteq> [] \<Longrightarrow> length (str_split sep s) = str_count sep s + 1"
proof (induction sep s rule: str_split.induct)
  case (1 sep s)
  show ?case
  proof (cases "str_partition sep s")
    case None
    with "1.prems" show ?thesis by simp
  next
    case (Some p)
    obtain h t where p: "p = (h, t)" by (cases p)
    from "1.IH" [OF "1.prems" Some p [symmetric]] "1.prems"
    have "length (str_split sep t) = str_count sep t + 1" by simp
    with Some p "1.prems" show ?thesis
      by (simp add: str_split.simps [of sep s] str_count.simps [of sep s])
  qed
qed

text \<open>Lines without a line feed in them, each ended by one, are read back as they are.\<close>

lemma text_lines_line:
  "10 \<notin> set l \<Longrightarrow> text_lines (l @ 10 # rest) = l # text_lines rest"
  by (induction l) auto

lemma text_lines_concat:
  "\<forall>l \<in> set ls. 10 \<notin> set l \<Longrightarrow> text_lines (concat (map (\<lambda>l. l @ newline) ls)) = ls"
  by (induction ls) (simp_all add: newline_def text_lines_line)

section \<open>The day names\<close>

lemma days_mapping_lookup:
  "map_of DAYS_MAPPING (strftime_A d) =
     Some (case d of
             Monday \<Rightarrow> [1055, 1086, 1085, 1077, 1076, 1077, 1083, 1100, 1085, 1080, 1082]
           | Tuesday \<Rightarrow> [1042, 1090, 1086, 1088, 1085, 1080, 1082]
           | Wednesday \<Rightarrow> [1057, 1088, 1077, 1076, 1072]
           | Thursday \<Rightarrow> [1063, 1077, 1090, 1074, 1077, 1088, 1075]
           | Friday \<Rightarrow> [1055, 1103, 1090, 1085, 1080, 1094, 1072]
           | Saturday \<Rightarrow> [1057, 1091, 1073, 1073, 1086, 1090, 1072]
           | Sunday \<Rightarrow> [1042, 1086, 1089, 1082, 1088, 1077, 1089, 1077, 1085, 1100, 1077])"
  by (cases d) (simp_all add: DAYS_MAPPING_def)

lemma days_mapping_some:
  "\<exists>ru. map_of DAYS_MAPPING (strftime_A d) = Some ru \<and> ru \<noteq> [] \<and> 10 \<notin> set ru"
  unfolding days_mapping_lookup by (cases d) simp_all

section \<open>The shape of the formatted message\<close>

lemma append_entries_eq:
  "append_entries message entries =
     message @ concat (map (\<lambda>entry. entry_line entry @ newline) entries)"
  by (induction entries arbitrary: message) simp_all

text \<open>
  With the day found in \<open>DAYS_MAPPING\<close>, the formatter is the rest of its body: the two
  lookups, the fallback, and the header followed by one piece of text per entry.
\<close>

lemma formatter_cases:
  assumes "map_of DAYS_MAPPING (strftime_A (now_baku w)) = Some ru"
  shows "get_schedule_message_for_today w =
     (case load_schedule w of
        Inl e \<Rightarrow> Inl e
      | Inr schedule_data \<Rightarrow>
          (case dict_get schedule_data ru of
             Inl e \<Rightarrow> Inl e
           | Inr schedule_text \<Rightarrow>
               if \<not> truthy schedule_text
               then Inr (header ru @ newline @ no_classes)
               else
                 (case schedule_text of
                    JString text \<Rightarrow>
                      Inr (header ru @ newline @
                           concat (map (\<lambda>entry. entry_line (str_strip entry) @ newline)
                                     (str_split comma text)))
                  | _ \<Rightarrow> Inl AttributeError)))"
proof -
  from days_mapping_some [of "now_baku w"] assms have "ru \<noteq> []"
    by auto
  with assms show ?thesis
    by (simp add: get_schedule_message_for_today_def append_entries_eq map_concat comp_def
             split: sum.splits json.splits)
qed

lemma formatter_starts:
  assumes "get_schedule_message_for_today w = Inr m"
  shows "\<exists>rest. m = 1057 # rest"
proof -
  obtain ru where ru: "map_of DAYS_MAPPING (strftime_A (now_baku w)) = Some ru"
    using days_mapping_some by blast
  from assms show ?thesis
    unfolding formatter_cases [OF ru]
    by (auto simp: header_def split: sum.splits if_splits json.splits)
qed

text \<open>The formatter reads the day and \<open>schedule.json\<close>, and nothing else of the world.\<close>

lemma formatter_reads:
  assumes "now_baku w' = now_baku w" and "schedule_json w' = schedule_json w"
  shows "get_schedule_message_for_today w' = get_schedule_message_for_today w"
proof -
  from assms(2) have l: "load_schedule w' = load_schedule w"
    by (simp add: load_schedule_def)
  show ?thesis
    unfolding get_schedule_message_for_today_def assms(1) l ..
qed

lemma entry_line_once:
  assumes "str_count hyphen_sep entry = 1"
  shows "\<exists>name time. entry = name @ hyphen_sep @ time
           \<and> str_split hyphen_sep entry = [name, time]
           \<and> entry_line entry = time @ em_dash_join @ name"
proof -
  have ne: "hyphen_sep \<noteq> []" by (simp add: hyphen_sep_def)
  from assms ne obtain name time where p: "str_partition hyphen_sep entry = Some (name, time)"
    and c: "str_count hyphen_sep time = 0"
    by (auto simp: str_count.simps [of hyphen_sep entry] split: option.splits)
  from c ne have "str_partition hyphen_sep time = None"
    by (auto simp: str_count.simps [of hyphen_sep time] split: option.splits)
  with ne have "str_split hyphen_sep time = [time]"
    by (simp add: str_split.simps [of hyphen_sep time])
  with p ne have s: "str_split hyphen_sep entry = [name, time]"
    by (simp add: str_split.simps [of hyphen_sep entry])
  from p have "str_contains hyphen_sep entry"
    by (simp add: str_contains_partition)
  with s have "entry_line entry = time @ em_dash_join @ name"
    by (simp add: entry_line_def)
  with s str_partition_sound [OF p] show ?thesis by blast
qed

lemma entry_line_otherwise:
  assumes "str_count hyphen_sep entry \<noteq> 1"
  shows "entry_line entry = entry"
proof -
  have ne: "hyphen_sep \<noteq> []" by (simp add: hyphen_sep_def)
  from assms length_str_split [OF ne, of entry]
  have "length (str_split hyphen_sep entry) \<noteq> 2" by simp
  then show ?thesis
    by (auto simp: entry_line_def split: list.splits)
qed

lemma entry_line_set: "set (entry_line entry) \<subseteq> set entry \<union> {32, 8212}"
proof (cases "str_count hyphen_sep entry = 1")
  case True
  from entry_line_once [OF True] show ?thesis
    by (auto simp: em_dash_join_def)
next
  case False
  from entry_line_otherwise [OF False] show ?thesis by auto
qed

section \<open>The subscriber store\<close>

lemma those_atoms: "those (map (atom_of \<circ> json_of_atom) xs) = Some xs"
proof (induction xs)
  case Nil
  show ?case by simp
next
  case (Cons a xs)
  then show ?case by (cases a) simp_all
qed

text \<open>What \<open>json.dump\<close> wrote is loaded again as the set of what was written.\<close>

lemma load_after_write:
  "load_subscribers
     (w\<lparr>subscribers_json := Parsed (JArray (map json_of_atom xs)), file_writes := k\<rparr>)
     = Inr (remdups xs)"
  by (simp add: load_subscribers_def those_atoms)

lemma load_subscribers_distinct:
  assumes "load_subscribers w = Inr subscribers"
  shows "distinct subscribers"
  using assms
  by (auto simp: load_subscribers_def
           split: json_file.splits json.splits option.splits if_splits
           elim!: py_set.elims)

lemma save_subscriber_known:
  assumes "load_subscribers w = Inr subscribers" and "AInt chat_id \<in> set subscribers"
  shows "save_subscriber chat_id w = Inr w"
  using assms by (simp add: save_subscriber_def)

lemma save_subscriber_new:
  assumes "load_subscribers w = Inr subscribers" and "AInt chat_id \<notin> set subscribers"
  shows "\<exists>w'. save_subscriber chat_id w = Inr w'
           \<and> load_subscribers w' = Inr (remdups (subscribers @ [AInt chat_id]))
           \<and> file_writes w' = Suc (file_writes w)"
proof -
  let ?w' = "w\<lparr>subscribers_json :=
                  Parsed (JArray (map json_of_atom (subscribers @ [AInt chat_id]))),
               file_writes := Suc (file_writes w)\<rparr>"
  from assms have "save_subscriber chat_id w = Inr ?w'"
    by (simp add: save_subscriber_def)
  moreover have "load_subscribers ?w' = Inr (remdups (subscribers @ [AInt chat_id]))"
    by (rule load_after_write)
  ultimately show ?thesis by simp
qed

lemma save_subscriber_loads:
  assumes "load_subscribers w = Inr subscribers"
  shows "\<exists>w' subscribers'. save_subscriber chat_id w = Inr w'
           \<and> load_subscribers w' = Inr subscribers'
           \<and> set subscribers' = set subscribers \<union> {AInt chat_id}"
proof (cases "AInt chat_id \<in> set subscribers")
  case True
  with save_subscriber_known [OF assms True] assms show ?thesis
    by auto
next
  case False
  from save_subscriber_new [OF assms False] show ?thesis
    by auto
qed

section \<open>The sending loop\<close>

text \<open>
  When no call raises past \<open>except Exception\<close>, the loop calls \<open>send_message\<close> for every
  recipient in turn, logs the calls that raised, and raises nothing itself.
\<close>

lemma send_loop_run:
  assumes "\<forall>r \<in> set (send_outcomes send msg subs (network st)). \<not> propagates r"
  shows "attempts (send_loop send msg subs st) = attempts st @ map (\<lambda>c. (c, msg)) subs
       \<and> logged (send_loop send msg subs st)
           = logged st @ failure_log (zip subs (send_outcomes send msg subs (network st)))
       \<and> raised (send_loop send msg subs st) = raised st"
  using assms
proof (induction subs arbitrary: st)
  case Nil
  show ?case by simp
next
  case (Cons c cs)
  obtain r n' where s: "send (network st) c msg = (r, n')"
    by (cases "send (network st) c msg")
  show ?case
  proof (cases r)
    case Delivered
    with s Cons.prems Cons.IH [of "st\<lparr>network := n', attempts := attempts st @ [(c, msg)]\<rparr>"]
    show ?thesis by simp
  next
    case (Raises_Exception e)
    with s Cons.prems
      Cons.IH [of "st\<lparr>network := n', attempts := attempts st @ [(c, msg)],
                      logged := logged st @ [Failed_to_send c e]\<rparr>"]
    show ?thesis by simp
  next
    case (Raises_other e)
    with s Cons.prems show ?thesis by simp
  qed
qed

text \<open>
  Whatever the calls do, the loop calls \<open>send_message\<close> for the recipients in turn up to
  some point, the first recipient included, and with the one text it was given.
\<close>

lemma send_loop_attempts_prefix:
  "\<exists>k. attempts (send_loop send msg subs st)
          = attempts st @ map (\<lambda>c. (c, msg)) (take k subs)
       \<and> (subs \<noteq> [] \<longrightarrow> 0 < k)"
proof (induction subs arbitrary: st)
  case Nil
  show ?case by simp
next
  case (Cons c cs)
  obtain r n' where s: "send (network st) c msg = (r, n')"
    by (cases "send (network st) c msg")
  show ?case
  proof (cases r)
    case Delivered
    from Cons.IH [of "st\<lparr>network := n', attempts := attempts st @ [(c, msg)]\<rparr>"]
    obtain k where
      "attempts (send_loop send msg cs
                   (st\<lparr>network := n', attempts := attempts st @ [(c, msg)]\<rparr>))
        = attempts st @ [(c, msg)] @ map (\<lambda>c. (c, msg)) (take k cs)"
      by auto
    with s Delivered have "attempts (send_loop send msg (c # cs) st)
        = attempts st @ map (\<lambda>c. (c, msg)) (take (Suc k) (c # cs))"
      by simp
    then show ?thesis by blast
  next
    case (Raises_Exception e)
    from Cons.IH [of "st\<lparr>network := n', attempts := attempts st @ [(c, msg)],
                      logged := logged st @ [Failed_to_send c e]\<rparr>"]
    obtain k where
      "attempts (send_loop send msg cs
                   (st\<lparr>network := n', attempts := attempts st @ [(c, msg)],
                      logged := logged st @ [Failed_to_send c e]\<rparr>))
        = attempts st @ [(c, msg)] @ map (\<lambda>c. (c, msg)) (take k cs)"
      by auto
    with s Raises_Exception have "attempts (send_loop send msg (c # cs) st)
        = attempts st @ map (\<lambda>c. (c, msg)) (take (Suc k) (c # cs))"
      by simp
    then show ?thesis by blast
  next
    case (Raises_other e)
    with s have "attempts (send_loop send msg (c # cs) st)
        = attempts st @ map (\<lambda>c. (c, msg)) (take (Suc 0) (c # cs))"
      by simp
    then show ?thesis by blast
  qed
qed

section \<open>The claims\<close>

text \<open>
  C1. In the daily job, let the message be formatted and the subscribers be loaded, and
  let every call of \<open>send_message\<close> return or raise an instance of \<open>Exception\<close>, which
  is what \<open>except Exception\<close> catches (a cancellation or an interrupt is none). Then
  \<open>send_message\<close> is called for every subscriber, once each, in the order of the
  iteration and with the message;
  every call that raised is logged with its recipient and its exception, in that order;
  and the job itself raises nothing. A send that fails stops neither the sends after it
  nor the job.
\<close>

theorem send_schedule_job_survives_failures:
  assumes "get_schedule_message_for_today w = Inr message"
    and "load_subscribers w = Inr subscribers"
    and "\<forall>r \<in> set (send_outcomes send_message message subscribers n). \<not> propagates r"
  shows "attempts (send_schedule_job send_message n w)
           = map (\<lambda>chat_id. (chat_id, message)) subscribers
       \<and> logged (send_schedule_job send_message n w)
           = failure_log (zip subscribers (send_outcomes send_message message subscribers n))
       \<and> raised (send_schedule_job send_message n w) = None"
  using assms(1,2)
    send_loop_run [of send_message message subscribers
                      "\<lparr>network = n, attempts = [], logged = [], raised = None\<rparr>"] assms(3)
  by (simp add: send_schedule_job_def)

theorem send_schedule_job_survives_failures_witness:
  "attempts (send_schedule_job example_send 0
               (example_world (JObject []) (Parsed (JArray [JInt 1, JInt 2, JInt 3]))))
     = [(AInt 1, header monday_ru @ newline @ no_classes),
        (AInt 2, header monday_ru @ newline @ no_classes),
        (AInt 3, header monday_ru @ newline @ no_classes)]
   \<and> logged (send_schedule_job example_send 0
               (example_world (JObject []) (Parsed (JArray [JInt 1, JInt 2, JInt 3]))))
     = [Failed_to_send (AInt 2) [98, 111, 111, 109]]
   \<and> raised (send_schedule_job example_send 0
               (example_world (JObject []) (Parsed (JArray [JInt 1, JInt 2, JInt 3]))))
     = None"
proof -
  let ?w = "example_world (JObject []) (Parsed (JArray [JInt 1, JInt 2, JInt 3]))"
  let ?m = "header monday_ru @ newline @ no_classes"
  have h1: "get_schedule_message_for_today ?w = Inr ?m"
    by (simp add: get_schedule_message_for_today_def DAYS_MAPPING_def load_schedule_def)
  have h2: "load_subscribers ?w = Inr [AInt 1, AInt 2, AInt 3]"
    by (simp add: load_subscribers_def)
  have h3: "\<forall>r \<in> set (send_outcomes example_send ?m [AInt 1, AInt 2, AInt 3] 0).
              \<not> propagates r"
    by simp
  from send_schedule_job_survives_failures [OF h1 h2 h3] show ?thesis
    by simp
qed

text \<open>
  C2. Let \<open>load_subscribers\<close> return a set for the state of \<open>subscribers.json\<close>; it does so
  for a missing file, for text that is not JSON, and for everything
  \<open>save_subscriber\<close> has written. Then \<open>save_subscriber(c)\<close> returns, and afterwards
  \<open>load_subscribers\<close> returns that set with \<open>c\<close> added, each element once. If \<open>c\<close> was in
  the set already, nothing is written and the world is left as it was; if it was not,
  the file is written once. A second \<open>save_subscriber(c)\<close> changes nothing.
\<close>

theorem save_subscriber_adds:
  assumes "load_subscribers w = Inr subscribers"
  shows "\<exists>w'. save_subscriber chat_id w = Inr w'
           \<and> (\<exists>subscribers'. load_subscribers w' = Inr subscribers'
                 \<and> set subscribers' = set subscribers \<union> {AInt chat_id}
                 \<and> distinct subscribers')
           \<and> (AInt chat_id \<in> set subscribers \<longrightarrow> w' = w)
           \<and> (AInt chat_id \<notin> set subscribers
                 \<longrightarrow> file_writes w' = Suc (file_writes w))
           \<and> save_subscriber chat_id w' = Inr w'"
proof (cases "AInt chat_id \<in> set subscribers")
  case True
  from save_subscriber_known [OF assms True] True assms load_subscribers_distinct [OF assms]
  show ?thesis
    by auto
next
  case False
  from save_subscriber_new [OF assms False]
  obtain w' where s: "save_subscriber chat_id w = Inr w'"
    and l: "load_subscribers w' = Inr (remdups (subscribers @ [AInt chat_id]))"
    and f: "file_writes w' = Suc (file_writes w)"
    by blast
  have "save_subscriber chat_id w' = Inr w'"
    by (rule save_subscriber_known [OF l]) simp
  with s l f False show ?thesis
    by auto
qed

theorem save_subscriber_adds_witness:
  "load_subscribers (example_world (JObject []) (Parsed (JArray [JInt 5, JInt 7])))
     = Inr [AInt 5, AInt 7]
   \<and> save_subscriber 9 (example_world (JObject []) (Parsed (JArray [JInt 5, JInt 7])))
       = Inr ((example_world (JObject []) (Parsed (JArray [JInt 5, JInt 7, JInt 9])))
                \<lparr>file_writes := 1\<rparr>)
   \<and> load_subscribers
         ((example_world (JObject []) (Parsed (JArray [JInt 5, JInt 7, JInt 9])))
            \<lparr>file_writes := 1\<rparr>)
       = Inr [AInt 5, AInt 7, AInt 9]
   \<and> save_subscriber 7 (example_world (JObject []) (Parsed (JArray [JInt 5, JInt 7])))
       = Inr (example_world (JObject []) (Parsed (JArray [JInt 5, JInt 7])))"
proof -
  let ?w = "example_world (JObject []) (Parsed (JArray [JInt 5, JInt 7]))"
  have h: "load_subscribers ?w = Inr [AInt 5, AInt 7]"
    by (simp add: load_subscribers_def)
  have s: "save_subscriber 9 ?w
      = Inr ((example_world (JObject []) (Parsed (JArray [JInt 5, JInt 7, JInt 9])))
               \<lparr>file_writes := 1\<rparr>)"
    by (simp add: save_subscriber_def h)
  have l: "load_subscribers
         ((example_world (JObject []) (Parsed (JArray [JInt 5, JInt 7, JInt 9])))
            \<lparr>file_writes := 1\<rparr>)
       = Inr [AInt 5, AInt 7, AInt 9]"
    by (simp add: load_subscribers_def)
  from save_subscriber_adds [OF h, of 7] h s l
  show ?thesis
    by auto
qed

text \<open>
  C3, amended. Let today's entry of the schedule be a non-empty string, and let none of
  its comma-separated entries, once stripped, hold a line feed. Then the lines of the
  message are the header line "Segodnya", the Russian day name and a colon, and after it
  one line for each entry, in the order of the entries: the line made of the stripped
  entry.
\<close>

theorem message_lines:
  assumes "schedule_json w = Parsed (JObject kvs)"
    and "map_of DAYS_MAPPING (strftime_A (now_baku w)) = Some day_name_ru"
    and "map_of (rev kvs) day_name_ru = Some (JString text)"
    and "text \<noteq> []"
    and "\<forall>entry \<in> set (str_split comma text). 10 \<notin> set (str_strip entry)"
  shows "\<exists>message. get_schedule_message_for_today w = Inr message
           \<and> text_lines message
               = header day_name_ru
                 # map (\<lambda>entry. entry_line (str_strip entry)) (str_split comma text)"
proof -
  let ?lines = "map (\<lambda>entry. entry_line (str_strip entry)) (str_split comma text)"
  let ?message = "header day_name_ru @ newline @ concat (map (\<lambda>l. l @ newline) ?lines)"
  from assms(1,3,4) have m: "get_schedule_message_for_today w = Inr ?message"
    unfolding formatter_cases [OF assms(2)]
    by (simp add: load_schedule_def comp_def)
  from days_mapping_some [of "now_baku w"] assms(2) have "10 \<notin> set day_name_ru"
    by auto
  then have h: "10 \<notin> set (header day_name_ru)"
    by (simp add: header_def)
  have "\<forall>l \<in> set ?lines. 10 \<notin> set l"
    using assms(5) entry_line_set by fastforce
  then have "text_lines (concat (map (\<lambda>l. l @ newline) ?lines)) = ?lines"
    by (rule text_lines_concat)
  with h have "text_lines ?message = header day_name_ru # ?lines"
    by (simp add: newline_def text_lines_line)
  with m show ?thesis by blast
qed

theorem message_lines_witness:
  "get_schedule_message_for_today
     (example_world
        (JObject [(monday_ru,
           JString [77, 97, 116, 104, 32, 45, 32, 57, 58, 48, 48, 44, 32, 65, 114, 116])])
        Absent)
     = Inr (header monday_ru
            @ [10, 57, 58, 48, 48, 32, 8212, 32, 77, 97, 116, 104, 10, 65, 114, 116, 10])
   \<and> text_lines
        (header monday_ru
         @ [10, 57, 58, 48, 48, 32, 8212, 32, 77, 97, 116, 104, 10, 65, 114, 116, 10])
     = [header monday_ru,
        [57, 58, 48, 48, 32, 8212, 32, 77, 97, 116, 104],
        [65, 114, 116]]"
proof -
  let ?text = "[77, 97, 116, 104, 32, 45, 32, 57, 58, 48, 48, 44, 32, 65, 114, 116] :: pystr"
  let ?w = "example_world (JObject [(monday_ru, JString ?text)]) Absent"
  have s: "str_split comma ?text
      = [[77, 97, 116, 104, 32, 45, 32, 57, 58, 48, 48], [32, 65, 114, 116]]"
    by (simp add: comma_def)
  have st: "str_strip [77, 97, 116, 104, 32, 45, 32, 57, 58, 48, 48]
      = [77, 97, 116, 104, 32, 45, 32, 57, 58, 48, 48]"
      "str_strip [32, 65, 114, 116] = [65, 114, 116]"
    by (simp_all add: str_strip_def isspace_def)
  have e: "entry_line [77, 97, 116, 104, 32, 45, 32, 57, 58, 48, 48]
       = [57, 58, 48, 48, 32, 8212, 32, 77, 97, 116, 104]"
      "entry_line [65, 114, 116] = [65, 114, 116]"
    by (simp_all add: entry_line_def hyphen_sep_def em_dash_join_def)
  have h1: "schedule_json ?w = Parsed (JObject [(monday_ru, JString ?text)])"
    by simp
  have h2: "map_of DAYS_MAPPING (strftime_A (now_baku ?w)) = Some monday_ru"
    by (simp add: DAYS_MAPPING_def)
  have h3: "map_of (rev [(monday_ru, JString ?text)]) monday_ru = Some (JString ?text)"
    by simp
  have h4: "?text \<noteq> []"
    by simp
  have h5: "\<forall>entry \<in> set (str_split comma ?text). 10 \<notin> set (str_strip entry)"
    unfolding s by (simp add: st)
  have m: "get_schedule_message_for_today ?w
      = Inr (header monday_ru
             @ [10, 57, 58, 48, 48, 32, 8212, 32, 77, 97, 116, 104, 10, 65, 114, 116, 10])"
    by (simp add: get_schedule_message_for_today_def DAYS_MAPPING_def load_schedule_def
          s st e newline_def del: str_split.simps)
  from message_lines [OF h1 h2 h3 h4 h5] m show ?thesis
    unfolding s by (simp add: st e)
qed

text \<open>
  C3 as it is written fails for an entry with a line feed inside. On a Monday whose entry
  in \<open>schedule.json\<close> is the string of \<open>a\<close>, a line feed and \<open>b\<close>, the text has one entry,
  and the message has two lines after its header, \<open>a\<close> and \<open>b\<close>: its lines are not the
  header and one line per entry.
\<close>

theorem message_lines_counterexample:
  "get_schedule_message_for_today
     (example_world (JObject [(monday_ru, JString [97, 10, 98])]) Absent)
     = Inr (header monday_ru @ [10, 97, 10, 98, 10])
   \<and> str_split comma [97, 10, 98] = [[97, 10, 98]]
   \<and> text_lines (header monday_ru @ [10, 97, 10, 98, 10]) = [header monday_ru, [97], [98]]
   \<and> text_lines (header monday_ru @ [10, 97, 10, 98, 10])
       \<noteq> [header monday_ru, entry_line (str_strip [97, 10, 98])]"
proof -
  have s: "str_split comma [97, 10, 98] = [[97, 10, 98 :: nat]]"
    by (simp add: comma_def)
  have st: "str_strip [97, 10, 98] = [97, 10, 98]"
    by (simp add: str_strip_def isspace_def)
  have e: "entry_line [97, 10, 98] = [97, 10, 98]"
    by (simp add: entry_line_def hyphen_sep_def)
  have m: "get_schedule_message_for_today
     (example_world (JObject [(monday_ru, JString [97, 10, 98])]) Absent)
     = Inr (header monday_ru @ [10, 97, 10, 98, 10])"
    by (simp add: get_schedule_message_for_today_def DAYS_MAPPING_def load_schedule_def
          s st e newline_def del: str_split.simps)
  have l: "text_lines (header monday_ru @ [10, 97, 10, 98, 10])
      = [header monday_ru, [97], [98]]"
    by (simp add: header_def)
  from m s l show ?thesis
    by (simp add: st e)
qed

text \<open>
  C4. \<open>__main__\<close> registers two command handlers and no more: first one for the command
  \<open>start\<close>, then one for the command \<open>today\<close>. When the subscribers can be loaded, the
  callback of \<open>start\<close> saves the id of the requesting chat, so that the subscribers loaded
  afterwards are those that were there and this id, and it replies with the greeting:
  "Privet, ", the mention of the user, and the sentence that the schedule comes every
  day at 08:00 Baku time and that \<open>/today\<close> shows today's. When the message can be
  formatted, the callback of \<open>today\<close> leaves the world as it is and replies with the
  message.
\<close>

theorem two_commands:
  "\<exists>start_callback today_callback.
     application_handlers
       = [([115, 116, 97, 114, 116], start_callback), ([116, 111, 100, 97, 121], today_callback)]
     \<and> (load_subscribers w = Inr subscribers
          \<longrightarrow> (\<exists>w'. start_callback upd w
                      = Inr (w', [Reply_html ([1055, 1088, 1080, 1074, 1077, 1090, 44, 32] @ mention_html upd @
     [33, 32, 1071, 32, 1073, 1091, 1076, 1091, 32, 1086, 1090, 1087, 1088, 1072, 1074,
      1083, 1103, 1090, 1100, 32, 1090, 1077, 1073, 1077, 32, 1088, 1072, 1089, 1087,
      1080, 1089, 1072, 1085, 1080, 1077, 32, 1082, 1072, 1078, 1076, 1099, 1081, 32,
      1076, 1077, 1085, 1100, 32, 1074, 32, 48, 56, 58, 48, 48, 32, 1087, 1086, 32,
      1041, 1072, 1082, 1091, 46, 32, 1053, 1072, 1087, 1080, 1096, 1080, 32, 47, 116,
      111, 100, 97, 121, 32, 1095, 1090, 1086, 1073, 1099, 32, 1091, 1079, 1085, 1072,
      1090, 1100, 32, 1088, 1072, 1089, 1087, 1080, 1089, 1072, 1085, 1080, 1077, 32,
      1085, 1072, 32, 1089, 1077, 1075, 1086, 1076, 1085, 1103, 46])])
                   \<and> save_subscriber (effective_chat_id upd) w = Inr w'
                   \<and> (\<exists>subscribers'. load_subscribers w' = Inr subscribers'
                         \<and> set subscribers'
                             = set subscribers \<union> {AInt (effective_chat_id upd)})))
     \<and> (get_schedule_message_for_today w = Inr message
          \<longrightarrow> today_callback upd w = Inr (w, [Reply_text message]))"
proof -
  have "application_handlers
       = [([115, 116, 97, 114, 116], start), ([116, 111, 100, 97, 121], today)]"
    by (simp add: application_handlers_def)
  moreover have "load_subscribers w = Inr subscribers
          \<longrightarrow> (\<exists>w'. start upd w
                      = Inr (w', [Reply_html ([1055, 1088, 1080, 1074, 1077, 1090, 44, 32] @ mention_html upd @
     [33, 32, 1071, 32, 1073, 1091, 1076, 1091, 32, 1086, 1090, 1087, 1088, 1072, 1074,
      1083, 1103, 1090, 1100, 32, 1090, 1077, 1073, 1077, 32, 1088, 1072, 1089, 1087,
      1080, 1089, 1072, 1085, 1080, 1077, 32, 1082, 1072, 1078, 1076, 1099, 1081, 32,
      1076, 1077, 1085, 1100, 32, 1074, 32, 48, 56, 58, 48, 48, 32, 1087, 1086, 32,
      1041, 1072, 1082, 1091, 46, 32, 1053, 1072, 1087, 1080, 1096, 1080, 32, 47, 116,
      111, 100, 97, 121, 32, 1095, 1090, 1086, 1073, 1099, 32, 1091, 1079, 1085, 1072,
      1090, 1100, 32, 1088, 1072, 1089, 1087, 1080, 1089, 1072, 1085, 1080, 1077, 32,
      1085, 1072, 32, 1089, 1077, 1075, 1086, 1076, 1085, 1103, 46])])
                   \<and> save_subscriber (effective_chat_id upd) w = Inr w'
                   \<and> (\<exists>subscribers'. load_subscribers w' = Inr subscribers'
                         \<and> set subscribers'
                             = set subscribers \<union> {AInt (effective_chat_id upd)}))"
  proof
    assume l: "load_subscribers w = Inr subscribers"
    from save_subscriber_loads [OF l, of "effective_chat_id upd"]
    obtain w' subscribers' where "save_subscriber (effective_chat_id upd) w = Inr w'"
      and "load_subscribers w' = Inr subscribers'"
      and "set subscribers' = set subscribers \<union> {AInt (effective_chat_id upd)}"
      by blast
    then show "\<exists>w'. start upd w
                      = Inr (w', [Reply_html ([1055, 1088, 1080, 1074, 1077, 1090, 44, 32] @ mention_html upd @
     [33, 32, 1071, 32, 1073, 1091, 1076, 1091, 32, 1086, 1090, 1087, 1088, 1072, 1074,
      1083, 1103, 1090, 1100, 32, 1090, 1077, 1073, 1077, 32, 1088, 1072, 1089, 1087,
      1080, 1089, 1072, 1085, 1080, 1077, 32, 1082, 1072, 1078, 1076, 1099, 1081, 32,
      1076, 1077, 1085, 1100, 32, 1074, 32, 48, 56, 58, 48, 48, 32, 1087, 1086, 32,
      1041, 1072, 1082, 1091, 46, 32, 1053, 1072, 1087, 1080, 1096, 1080, 32, 47, 116,
      111, 100, 97, 121, 32, 1095, 1090, 1086, 1073, 1099, 32, 1091, 1079, 1085, 1072,
      1090, 1100, 32, 1088, 1072, 1089, 1087, 1080, 1089, 1072, 1085, 1080, 1077, 32,
      1085, 1072, 32, 1089, 1077, 1075, 1086, 1076, 1085, 1103, 46])])
                   \<and> save_subscriber (effective_chat_id upd) w = Inr w'
                   \<and> (\<exists>subscribers'. load_subscribers w' = Inr subscribers'
                         \<and> set subscribers'
                             = set subscribers \<union> {AInt (effective_chat_id upd)})"
      by (simp add: start_def greeting_def)
  qed
  moreover have "get_schedule_message_for_today w = Inr message
          \<longrightarrow> today upd w = Inr (w, [Reply_text message])"
    by (simp add: today_def)
  ultimately show ?thesis by blast
qed

theorem two_commands_witness:
  "application_handlers
     = [([115, 116, 97, 114, 116], start), ([116, 111, 100, 97, 121], today)]
   \<and> start \<lparr>effective_chat_id = - 1001234, mention_html = [65]\<rparr>
       (example_world (JObject []) Absent)
     = Inr ((example_world (JObject []) Absent)
              \<lparr>subscribers_json := Parsed (JArray [JInt (- 1001234)]), file_writes := 1\<rparr>,
            [Reply_html
               [1055, 1088, 1080, 1074, 1077, 1090, 44, 32, 65, 33, 32, 1071, 32, 1073, 1091, 1076, 1091, 32, 1086, 1090, 1087, 1088, 1072, 1074,
                1083, 1103, 1090, 1100, 32, 1090, 1077, 1073, 1077, 32, 1088, 1072, 1089, 1087,
                1080, 1089, 1072, 1085, 1080, 1077, 32, 1082, 1072, 1078, 1076, 1099, 1081, 32,
                1076, 1077, 1085, 1100, 32, 1074, 32, 48, 56, 58, 48, 48, 32, 1087, 1086, 32,
                1041, 1072, 1082, 1091, 46, 32, 1053, 1072, 1087, 1080, 1096, 1080, 32, 47, 116,
                111, 100, 97, 121, 32, 1095, 1090, 1086, 1073, 1099, 32, 1091, 1079, 1085, 1072,
                1090, 1100, 32, 1088, 1072, 1089, 1087, 1080, 1089, 1072, 1085, 1080, 1077, 32,
                1085, 1072, 32, 1089, 1077, 1075, 1086, 1076, 1085, 1103, 46]])
   \<and> load_subscribers
       ((example_world (JObject []) Absent)
          \<lparr>subscribers_json := Parsed (JArray [JInt (- 1001234)]), file_writes := 1\<rparr>)
     = Inr [AInt (- 1001234)]
   \<and> today \<lparr>effective_chat_id = - 1001234, mention_html = [65]\<rparr>
       (example_world (JObject []) Absent)
     = Inr (example_world (JObject []) Absent,
            [Reply_text
               [1057, 1077, 1075, 1086, 1076, 1085, 1103, 32,
            1055, 1086, 1085, 1077, 1076, 1077, 1083, 1100, 1085, 1080, 1082,
            58, 10, 1053, 1077, 1090, 32, 1079, 1072, 1085, 1103, 1090, 1080, 1081, 46]])"
proof -
  let ?w = "example_world (JObject []) Absent"
  let ?u = "\<lparr>effective_chat_id = - 1001234, mention_html = [65]\<rparr>"
  let ?m = "[1057, 1077, 1075, 1086, 1076, 1085, 1103, 32,
            1055, 1086, 1085, 1077, 1076, 1077, 1083, 1100, 1085, 1080, 1082,
            58, 10, 1053, 1077, 1090, 32, 1079, 1072, 1085, 1103, 1090, 1080, 1081, 46]"
  have h1: "load_subscribers ?w = Inr []"
    by (simp add: load_subscribers_def)
  have h2: "get_schedule_message_for_today ?w = Inr ?m"
    by (simp add: get_schedule_message_for_today_def DAYS_MAPPING_def load_schedule_def
          header_def newline_def no_classes_def)
  have s: "save_subscriber (- 1001234) ?w
      = Inr (?w\<lparr>subscribers_json := Parsed (JArray [JInt (- 1001234)]), file_writes := 1\<rparr>)"
    by (simp add: save_subscriber_def load_subscribers_def)
  have l: "load_subscribers
       (?w\<lparr>subscribers_json := Parsed (JArray [JInt (- 1001234)]), file_writes := 1\<rparr>)
     = Inr [AInt (- 1001234)]"
    by (simp add: load_subscribers_def)
  from two_commands [of ?w "[]" ?u ?m] h1 h2
  obtain start_callback today_callback w' where
    a: "application_handlers
       = [([115, 116, 97, 114, 116], start_callback), ([116, 111, 100, 97, 121], today_callback)]"
    and b: "start_callback ?u ?w
       = Inr (w', [Reply_html
               [1055, 1088, 1080, 1074, 1077, 1090, 44, 32, 65, 33, 32, 1071, 32, 1073, 1091, 1076, 1091, 32, 1086, 1090, 1087, 1088, 1072, 1074,
                1083, 1103, 1090, 1100, 32, 1090, 1077, 1073, 1077, 32, 1088, 1072, 1089, 1087,
                1080, 1089, 1072, 1085, 1080, 1077, 32, 1082, 1072, 1078, 1076, 1099, 1081, 32,
                1076, 1077, 1085, 1100, 32, 1074, 32, 48, 56, 58, 48, 48, 32, 1087, 1086, 32,
                1041, 1072, 1082, 1091, 46, 32, 1053, 1072, 1087, 1080, 1096, 1080, 32, 47, 116,
                111, 100, 97, 121, 32, 1095, 1090, 1086, 1073, 1099, 32, 1091, 1079, 1085, 1072,
                1090, 1100, 32, 1088, 1072, 1089, 1087, 1080, 1089, 1072, 1085, 1080, 1077, 32,
                1085, 1072, 32, 1089, 1077, 1075, 1086, 1076, 1085, 1103, 46]])"
    and c: "save_subscriber (effective_chat_id ?u) ?w = Inr w'"
    and d: "today_callback ?u ?w = Inr (?w, [Reply_text ?m])"
    by auto
  from a have e: "start_callback = start" "today_callback = today"
    by (simp_all add: application_handlers_def)
  from c s have "w' = ?w\<lparr>subscribers_json := Parsed (JArray [JInt (- 1001234)]),
                          file_writes := 1\<rparr>"
    by simp
  with a b d e l show ?thesis
    by simp
qed

text \<open>
  C5. Take two moments with the same day and the same contents of \<open>schedule.json\<close>; the
  subscribers may differ. If \<open>/today\<close> answers at the one, its answer is one reply with a
  text, and at the other the daily job calls \<open>send_message\<close> with that same text for each
  subscriber it reaches, the first one included.
\<close>

theorem today_matches_broadcast:
  assumes "now_baku w1 = now_baku w2" and "schedule_json w1 = schedule_json w2"
    and "today upd w1 = Inr (w1', replies)"
    and "load_subscribers w2 = Inr subscribers"
  shows "\<exists>message k. replies = [Reply_text message]
           \<and> attempts (send_schedule_job send_message n w2)
               = map (\<lambda>chat_id. (chat_id, message)) (take k subscribers)
           \<and> (subscribers \<noteq> [] \<longrightarrow> 0 < k)"
proof -
  from assms(3) obtain message where m: "get_schedule_message_for_today w1 = Inr message"
    and r: "replies = [Reply_text message]"
    by (auto simp: today_def split: sum.splits)
  from m formatter_reads [OF assms(1,2)]
  have m2: "get_schedule_message_for_today w2 = Inr message"
    by simp
  from send_loop_attempts_prefix [of send_message message subscribers
      "\<lparr>network = n, attempts = [], logged = [], raised = None\<rparr>"]
  obtain k where "attempts (send_schedule_job send_message n w2)
               = map (\<lambda>chat_id. (chat_id, message)) (take k subscribers)"
    and "subscribers \<noteq> [] \<longrightarrow> 0 < k"
    using m2 assms(4) by (auto simp: send_schedule_job_def)
  with r show ?thesis by blast
qed

theorem today_matches_broadcast_witness:
  "today example_update (example_world (JObject []) Absent)
     = Inr (example_world (JObject []) Absent,
            [Reply_text (header monday_ru @ newline @ no_classes)])
   \<and> attempts (send_schedule_job example_send 0
                 (example_world (JObject []) (Parsed (JArray [JInt 1, JInt 2]))))
     = [(AInt 1, header monday_ru @ newline @ no_classes),
        (AInt 2, header monday_ru @ newline @ no_classes)]"
proof -
  let ?w1 = "example_world (JObject []) Absent"
  let ?w2 = "example_world (JObject []) (Parsed (JArray [JInt 1, JInt 2]))"
  let ?m = "header monday_ru @ newline @ no_classes"
  have h1: "now_baku ?w1 = now_baku ?w2" and h2: "schedule_json ?w1 = schedule_json ?w2"
    by simp_all
  have h3: "today example_update ?w1 = Inr (?w1, [Reply_text ?m])"
    by (simp add: today_def get_schedule_message_for_today_def DAYS_MAPPING_def
          load_schedule_def)
  have h4: "load_subscribers ?w2 = Inr [AInt 1, AInt 2]"
    by (simp add: load_subscribers_def)
  from today_matches_broadcast [OF h1 h2 h3 h4, of example_send 0]
  obtain k where "attempts (send_schedule_job example_send 0 ?w2)
      = map (\<lambda>chat_id. (chat_id, ?m)) (take k [AInt 1, AInt 2])"
    by auto
  moreover have "length (attempts (send_schedule_job example_send 0 ?w2)) = 2"
    by (simp add: send_schedule_job_def get_schedule_message_for_today_def DAYS_MAPPING_def
          load_schedule_def load_subscribers_def)
  ultimately have "attempts (send_schedule_job example_send 0 ?w2)
      = map (\<lambda>chat_id. (chat_id, ?m)) [AInt 1, AInt 2]"
    by (cases k; cases "k - 1") auto
  with h3 show ?thesis by simp
qed

text \<open>
  C7. \<open>DAYS_MAPPING\<close> has an entry for each of the seven names \<open>strftime("%A")\<close> can give,
  in the order of the week. So for every day of the week the lookup of its English name
  finds a Russian name, and a non-empty one: the test \<open>not day_name_ru\<close> is false, and the
  formatter never returns the text "Error: Could not map day ... to Russian.", whatever
  the day and the files.
\<close>

theorem days_mapping_total:
  "map fst DAYS_MAPPING =
     map strftime_A [Monday, Tuesday, Wednesday, Thursday, Friday, Saturday, Sunday]
   \<and> (\<exists>day_name_ru. map_of DAYS_MAPPING (strftime_A d) = Some day_name_ru
                      \<and> day_name_ru \<noteq> [])
   \<and> get_schedule_message_for_today w \<noteq> Inr (map_day_error day_name_en)"
proof -
  have "map fst DAYS_MAPPING =
     map strftime_A [Monday, Tuesday, Wednesday, Thursday, Friday, Saturday, Sunday]"
    by (simp add: DAYS_MAPPING_def)
  moreover have "\<exists>day_name_ru. map_of DAYS_MAPPING (strftime_A d) = Some day_name_ru
                      \<and> day_name_ru \<noteq> []"
    using days_mapping_some [of d] by blast
  moreover have "get_schedule_message_for_today w \<noteq> Inr (map_day_error day_name_en)"
  proof
    assume "get_schedule_message_for_today w = Inr (map_day_error day_name_en)"
    from formatter_starts [OF this] show False
      by (simp add: map_day_error_def)
  qed
  ultimately show ?thesis by blast
qed

theorem days_mapping_total_witness:
  "map_of DAYS_MAPPING (strftime_A Sunday)
     = Some [1042, 1086, 1089, 1082, 1088, 1077, 1089, 1077, 1085, 1100, 1077]
   \<and> get_schedule_message_for_today
        \<lparr>now_baku = Sunday, schedule_json = Absent, subscribers_json = Absent,
         file_writes = 0\<rparr>
       \<noteq> Inr (map_day_error (strftime_A Sunday))"
  using days_mapping_total
    [of Sunday
        "\<lparr>now_baku = Sunday, schedule_json = Absent, subscribers_json = Absent,
          file_writes = 0\<rparr>"
        "strftime_A Sunday"]
  by (simp add: DAYS_MAPPING_def)

text \<open>
  C8, amended. When \<open>subscribers.json\<close> does not exist, or exists and \<open>json.load\<close> raises
  \<open>JSONDecodeError\<close> on it, \<open>load_subscribers\<close> raises nothing and returns the empty set.
  When \<open>json.load\<close> raises anything else on it, \<open>load_subscribers\<close> raises that.
\<close>

theorem load_subscribers_missing_or_malformed:
  "(subscribers_json w = Absent \<or> subscribers_json w = Unreadable JSONDecodeError
      \<longrightarrow> load_subscribers w = Inr [])
   \<and> (subscribers_json w = Unreadable e \<and> e \<noteq> JSONDecodeError
      \<longrightarrow> load_subscribers w = Inl e)"
  by (auto simp: load_subscribers_def)

theorem load_subscribers_missing_or_malformed_witness:
  "load_subscribers
     \<lparr>now_baku = Monday, schedule_json = Absent, subscribers_json = Absent,
      file_writes = 0\<rparr> = Inr []
   \<and> load_subscribers
       \<lparr>now_baku = Monday, schedule_json = Absent,
        subscribers_json = Unreadable JSONDecodeError, file_writes = 0\<rparr> = Inr []
   \<and> load_subscribers
       \<lparr>now_baku = Monday, schedule_json = Absent,
        subscribers_json = Unreadable RecursionError, file_writes = 0\<rparr>
       = Inl RecursionError"
  using load_subscribers_missing_or_malformed
      [of "\<lparr>now_baku = Monday, schedule_json = Absent, subscribers_json = Absent,
            file_writes = 0\<rparr>" RecursionError]
    load_subscribers_missing_or_malformed
      [of "\<lparr>now_baku = Monday, schedule_json = Absent,
            subscribers_json = Unreadable JSONDecodeError, file_writes = 0\<rparr>" RecursionError]
    load_subscribers_missing_or_malformed
      [of "\<lparr>now_baku = Monday, schedule_json = Absent,
            subscribers_json = Unreadable RecursionError, file_writes = 0\<rparr>" RecursionError]
  by simp

text \<open>
  C8 as it is written fails for a store that is malformed in another way than
  \<open>JSONDecodeError\<close> reports. When \<open>subscribers.json\<close> holds bytes that are not text in the
  encoding it is opened with, \<open>json.load\<close> raises \<open>UnicodeDecodeError\<close>, the handler does
  not catch it, and \<open>load_subscribers\<close> raises it: it does not return the empty set.
\<close>

theorem load_subscribers_missing_or_malformed_counterexample:
  "load_subscribers
     \<lparr>now_baku = Monday, schedule_json = Absent,
      subscribers_json = Unreadable UnicodeDecodeError, file_writes = 0\<rparr>
     = Inl UnicodeDecodeError
   \<and> load_subscribers
       \<lparr>now_baku = Monday, schedule_json = Absent,
        subscribers_json = Unreadable UnicodeDecodeError, file_writes = 0\<rparr>
     \<noteq> Inr []"
  by (simp add: load_subscribers_def)

text \<open>
  C9. Let \<open>schedule.json\<close> hold a mapping. If it has no entry under today's Russian day
  name, or the entry is the empty string, the formatter raises nothing and returns
  "Segodnya", a space, the Russian day name, a colon, a line feed and "Net zanyatij.".
  And the formatter returns the same in any world with the same day and the same
  contents of \<open>schedule.json\<close>: of the two files it reads that one only.
\<close>

theorem no_classes_fallback:
  assumes "schedule_json w = Parsed (JObject kvs)"
    and "map_of DAYS_MAPPING (strftime_A (now_baku w)) = Some day_name_ru"
    and "day_name_ru \<notin> fst ` set kvs \<or> map_of (rev kvs) day_name_ru = Some (JString [])"
  shows "get_schedule_message_for_today w
           = Inr ([1057, 1077, 1075, 1086, 1076, 1085, 1103, 32] @ day_name_ru
                  @ [58, 10, 1053, 1077, 1090, 32, 1079, 1072, 1085, 1103, 1090, 1080, 1081, 46])
         \<and> (now_baku w' = now_baku w \<and> schedule_json w' = schedule_json w
              \<longrightarrow> get_schedule_message_for_today w' = get_schedule_message_for_today w)"
proof -
  from assms(3) have "dict_get (JObject kvs) day_name_ru = Inr JNull
      \<or> dict_get (JObject kvs) day_name_ru = Inr (JString [])"
  proof
    assume "day_name_ru \<notin> fst ` set kvs"
    then have "map_of (rev kvs) day_name_ru = None"
      by (simp add: map_of_eq_None_iff)
    then show ?thesis by simp
  next
    assume "map_of (rev kvs) day_name_ru = Some (JString [])"
    then show ?thesis by simp
  qed
  then have "get_schedule_message_for_today w
      = Inr (header day_name_ru @ newline @ no_classes)"
    unfolding formatter_cases [OF assms(2)] using assms(1)
    by (auto simp: load_schedule_def)
  then have "get_schedule_message_for_today w
           = Inr ([1057, 1077, 1075, 1086, 1076, 1085, 1103, 32] @ day_name_ru
                  @ [58, 10, 1053, 1077, 1090, 32, 1079, 1072, 1085, 1103, 1090, 1080, 1081, 46])"
    by (simp add: header_def newline_def no_classes_def)
  with formatter_reads [of w' w] show ?thesis
    by blast
qed

theorem no_classes_fallback_witness:
  "get_schedule_message_for_today (example_world (JObject []) Absent)
     = Inr [1057, 1077, 1075, 1086, 1076, 1085, 1103, 32,
            1055, 1086, 1085, 1077, 1076, 1077, 1083, 1100, 1085, 1080, 1082,
            58, 10, 1053, 1077, 1090, 32, 1079, 1072, 1085, 1103, 1090, 1080, 1081, 46]
   \<and> get_schedule_message_for_today
       (example_world (JObject [(monday_ru, JString [])]) Absent)
     = Inr [1057, 1077, 1075, 1086, 1076, 1085, 1103, 32,
            1055, 1086, 1085, 1077, 1076, 1077, 1083, 1100, 1085, 1080, 1082,
            58, 10, 1053, 1077, 1090, 32, 1079, 1072, 1085, 1103, 1090, 1080, 1081, 46]
   \<and> get_schedule_message_for_today
       (example_world (JObject []) (Parsed (JArray [JInt 1])))
     = get_schedule_message_for_today (example_world (JObject []) Absent)"
proof -
  have d: "map_of DAYS_MAPPING (strftime_A Monday) = Some monday_ru"
    by (simp add: DAYS_MAPPING_def)
  have a: "get_schedule_message_for_today (example_world (JObject []) Absent)
     = Inr [1057, 1077, 1075, 1086, 1076, 1085, 1103, 32,
            1055, 1086, 1085, 1077, 1076, 1077, 1083, 1100, 1085, 1080, 1082,
            58, 10, 1053, 1077, 1090, 32, 1079, 1072, 1085, 1103, 1090, 1080, 1081, 46]
     \<and> get_schedule_message_for_today
       (example_world (JObject []) (Parsed (JArray [JInt 1])))
     = get_schedule_message_for_today (example_world (JObject []) Absent)"
    using no_classes_fallback
      [of "example_world (JObject []) Absent" "[]" monday_ru
          "example_world (JObject []) (Parsed (JArray [JInt 1]))"] d
    by simp
  have b: "get_schedule_message_for_today
       (example_world (JObject [(monday_ru, JString [])]) Absent)
     = Inr [1057, 1077, 1075, 1086, 1076, 1085, 1103, 32,
            1055, 1086, 1085, 1077, 1076, 1077, 1083, 1100, 1085, 1080, 1082,
            58, 10, 1053, 1077, 1090, 32, 1079, 1072, 1085, 1103, 1090, 1080, 1081, 46]"
    using no_classes_fallback
      [of "example_world (JObject [(monday_ru, JString [])]) Absent"
          "[(monday_ru, JString [])]" monday_ru
          "example_world (JObject [(monday_ru, JString [])]) Absent"] d
    by simp
  from a b show ?thesis by simp
qed

text \<open>
  C10. An entry in which \<open>" - "\<close> occurs exactly once, counted as \<open>str.count\<close> counts, is
  some text \<open>name\<close>, then \<open>" - "\<close>, then some text \<open>time\<close>, these two being the parts
  \<open>split\<close> gives, and its line is \<open>time\<close>, an em dash between two spaces, and \<open>name\<close>. An
  entry in which \<open>" - "\<close> occurs not at all, or twice or more often, is its own line.
  Occurrences do not overlap: in \<open>"a - - b"\<close> the separator occurs once, and the line is
  \<open>"- b"\<close>, the dash, \<open>"a"\<close>.
\<close>

theorem entry_line_swaps:
  "(str_count hyphen_sep entry = 1
      \<longrightarrow> (\<exists>name time. entry = name @ hyphen_sep @ time
             \<and> str_split hyphen_sep entry = [name, time]
             \<and> entry_line entry = time @ em_dash_join @ name))
   \<and> (str_count hyphen_sep entry \<noteq> 1 \<longrightarrow> entry_line entry = entry)"
  using entry_line_once [of entry] entry_line_otherwise [of entry] by blast

theorem entry_line_swaps_witness:
  "str_count hyphen_sep [77, 97, 116, 104, 32, 45, 32, 57, 58, 48, 48] = 1
   \<and> entry_line [77, 97, 116, 104, 32, 45, 32, 57, 58, 48, 48]
       = [57, 58, 48, 48, 32, 8212, 32, 77, 97, 116, 104]
   \<and> str_count hyphen_sep [97, 32, 45, 32, 98, 32, 45, 32, 99] = 2
   \<and> entry_line [97, 32, 45, 32, 98, 32, 45, 32, 99] = [97, 32, 45, 32, 98, 32, 45, 32, 99]
   \<and> str_count hyphen_sep [65, 114, 116] = 0
   \<and> entry_line [65, 114, 116] = [65, 114, 116]
   \<and> str_count hyphen_sep [97, 32, 45, 32, 45, 32, 98] = 1
   \<and> entry_line [97, 32, 45, 32, 45, 32, 98] = [45, 32, 98, 32, 8212, 32, 97]"
proof -
  have c1: "str_count hyphen_sep [77, 97, 116, 104, 32, 45, 32, 57, 58, 48, 48] = 1"
    and c2: "str_count hyphen_sep [97, 32, 45, 32, 98, 32, 45, 32, 99] = 2"
    and c3: "str_count hyphen_sep [65, 114, 116] = 0"
    and c4: "str_count hyphen_sep [97, 32, 45, 32, 45, 32, 98] = 1"
    by (simp_all add: hyphen_sep_def)
  from entry_line_swaps [of "[77, 97, 116, 104, 32, 45, 32, 57, 58, 48, 48]"] c1
  have "entry_line [77, 97, 116, 104, 32, 45, 32, 57, 58, 48, 48]
       = [57, 58, 48, 48, 32, 8212, 32, 77, 97, 116, 104]"
    by (auto simp: hyphen_sep_def em_dash_join_def)
  moreover from entry_line_swaps [of "[97, 32, 45, 32, 98, 32, 45, 32, 99]"] c2
  have "entry_line [97, 32, 45, 32, 98, 32, 45, 32, 99] = [97, 32, 45, 32, 98, 32, 45, 32, 99]"
    by simp
  moreover from entry_line_swaps [of "[65, 114, 116]"] c3
  have "entry_line [65, 114, 116] = [65, 114, 116]"
    by simp
  moreover from entry_line_swaps [of "[97, 32, 45, 32, 45, 32, 98]"] c4
  have "entry_line [97, 32, 45, 32, 45, 32, 98] = [45, 32, 98, 32, 8212, 32, 97]"
    by (auto simp: hyphen_sep_def em_dash_join_def)
  ultimately show ?thesis using c1 c2 c3 c4 by simp
qed

end
